theory Spec2Isabelle
  imports Main "HOL-Library.AList"
begin

section \<open>JavaScript values and plain objects\<close>

text \<open>
  The form engine stores caller-supplied values of type \<^verbatim>\<open>any\<close> and compares them with
  \<^verbatim>\<open>!==\<close> and \<^verbatim>\<open>!= null\<close>. The values are modelled by a datatype on which both comparisons
  are written out: \<open>NaN\<close> is a number that is not strictly equal to itself, and an object
  carries its identity (a heap address), which is what strict equality compares.
  Numbers other than \<open>NaN\<close> are the integral ones; no arithmetic is done on them.
\<close>

datatype jsval =
    JUndefined
  | JNull
  | JBool bool
  | JNaN
  | JNum int
  | JStr string
  | JObj nat "(string \<times> jsval) list"

text \<open>A plain object: its own properties in insertion order.\<close>

type_synonym jsobj = "(string \<times> jsval) list"

text \<open>\<^verbatim>\<open>x === y\<close>\<close>

fun strict_eq :: "jsval \<Rightarrow> jsval \<Rightarrow> bool" where
  "strict_eq JNaN y = False"
| "strict_eq x JNaN = False"
| "strict_eq (JObj a ps) (JObj b qs) = (a = b)"
| "strict_eq x y = (x = y)"

text \<open>\<^verbatim>\<open>x == null\<close>\<close>

fun is_nullish :: "jsval \<Rightarrow> bool" where
  "is_nullish JUndefined = True"
| "is_nullish JNull = True"
| "is_nullish x = False"

text \<open>\<^verbatim>\<open>obj[name]\<close>: a missing property reads as \<open>undefined\<close>.\<close>

definition prop_get :: "jsobj \<Rightarrow> string \<Rightarrow> jsval" where
  "prop_get obj name = (case map_of obj name of None \<Rightarrow> JUndefined | Some v \<Rightarrow> v)"

text \<open>\<^verbatim>\<open>Object.keys(obj)\<close>\<close>

definition object_keys :: "jsobj \<Rightarrow> string list" where
  "object_keys obj = map fst obj"

text \<open>
  \<^verbatim>\<open>Map(obj).set(name, v).toJS()\<close>: the object with \<open>name\<close> bound to \<open>v\<close>, in place when the
  property exists and appended otherwise. \<^verbatim>\<open>toJS\<close> is the identity on the plain values
  modelled here.
\<close>

definition map_set :: "jsobj \<Rightarrow> string \<Rightarrow> jsval \<Rightarrow> jsobj" where
  "map_set obj name v = AList.update name v obj"

section \<open>Handlers and their outcomes\<close>

text \<open>
  A validator or submitter is called with the current values and the key it is called
  for. It returns a plain result, throws, or returns a promise; the promise is described
  by how it will settle, which happens at some later time (or never).
\<close>

datatype settlement = Fulfilled jsval | RejectedWith jsval | Unsettled

datatype outcome = Returned jsval | Threw jsval | Pending settlement

type_synonym handler = "jsobj \<Rightarrow> string \<Rightarrow> outcome"

section \<open>handlerEngine\<close>

text \<open>
  Modelled from the spec: \<^verbatim>\<open>handlerEngine.invokeHandler\<close> is only declared in the sources
  (name, handle, onResolve, onReject, notify); its body is missing. Following section 4.2
  of the specification, it executes the operation; a successful completion (a plain
  result or a fulfilled promise) calls \<open>onResolve\<close> with no payload, a throw or a rejection
  calls \<open>onReject\<close> with the reason, and \<open>notify\<close> is told the phases start, resolve and
  reject. The operation is a computation on the caller's state \<open>'s\<close>, as are the
  callbacks. The result is the state after the synchronous part together with the
  continuation that runs when a pending promise settles.
\<close>

definition invokeHandler ::
  "string \<Rightarrow> ('s \<Rightarrow> outcome \<times> 's) \<Rightarrow> ('s \<Rightarrow> 's) \<Rightarrow> (jsval \<Rightarrow> 's \<Rightarrow> 's) \<Rightarrow>
     (jsval list \<Rightarrow> 's \<Rightarrow> 's) \<Rightarrow> 's \<Rightarrow> 's \<times> ('s \<Rightarrow> 's) option" where
  "invokeHandler name handle onResolve onReject notify s =
     (case handle (notify [JStr name, JStr ''start''] s) of
        (Returned v, s1) \<Rightarrow>
          (notify [JStr name, JStr ''resolve''] (onResolve s1), None)
      | (Threw reason, s1) \<Rightarrow>
          (notify [JStr name, JStr ''reject'', reason] (onReject reason s1), None)
      | (Pending (Fulfilled v), s1) \<Rightarrow>
          (s1, Some (\<lambda>s2. notify [JStr name, JStr ''resolve''] (onResolve s2)))
      | (Pending (RejectedWith reason), s1) \<Rightarrow>
          (s1, Some (\<lambda>s2. notify [JStr name, JStr ''reject'', reason] (onReject reason s2)))
      | (Pending Unsettled, s1) \<Rightarrow> (s1, None))"

text \<open>
  The state once a pending completion has arrived at state \<open>s\<close>; nothing happens when no
  completion is pending.
\<close>

definition completion :: "'s \<times> ('s \<Rightarrow> 's) option \<Rightarrow> 's \<Rightarrow> 's" where
  "completion r s = (case snd r of None \<Rightarrow> s | Some k \<Rightarrow> k s)"

text \<open>
  Modelled from the spec: \<^verbatim>\<open>definitionChecker.isDefinedName\<close> is imported by
  formStateProvider.ts and is not among the sources. Following section 6 of the
  specification, given the declared field set, a candidate name and a context label it
  returns whether the name is a declared field.
\<close>

definition isDefinedName :: "jsobj \<Rightarrow> string \<Rightarrow> string \<Rightarrow> bool" where
  "isDefinedName defn name label = (name \<in> set (object_keys defn))"

text \<open>
  Modelled from the spec: \<^verbatim>\<open>handlerEngine.sanitizeErrors\<close> is only declared in the
  sources. Following section 4.1, a structured per-field object is restricted to the
  declared fields (and \<open>form\<close> when \<open>isForm\<close> holds); unknown keys are dropped; \<open>null\<close>,
  \<open>undefined\<close> and every other shape give the empty mapping.
\<close>

definition sanitizeErrors :: "jsobj \<Rightarrow> jsval \<Rightarrow> bool \<Rightarrow> jsobj" where
  "sanitizeErrors defn newErrors isForm =
     (case newErrors of
        JObj a ps \<Rightarrow>
          filter (\<lambda>(k, v). k \<in> set (object_keys defn) \<or> (isForm \<and> k = ''form'')) ps
      | _ \<Rightarrow> [])"

text \<open>
  Modelled from the spec: \<^verbatim>\<open>handlerEngine.mergeErrors\<close> is only declared in the sources.
  Following section 4.1, the result is \<open>oldError\<close> except that the entry for \<open>name\<close> is
  replaced by the sanitized result of \<open>newErrors\<close> for that single key: the raw outcome is
  sanitized as the one-key mapping from \<open>name\<close> to \<open>newErrors\<close>, and a key the sanitizer
  drops, like a success, leaves \<open>null\<close> (no error) there.
\<close>

definition mergeErrors :: "jsobj \<Rightarrow> jsobj \<Rightarrow> string \<Rightarrow> jsval \<Rightarrow> jsobj" where
  "mergeErrors defn oldError name newErrors =
     map_set oldError name
       (case map_of (sanitizeErrors defn (JObj 0 [(name, newErrors)]) (name = ''form'')) name of
          None \<Rightarrow> JNull
        | Some e \<Rightarrow> (if is_nullish e then JNull else e))"

section \<open>eventAdaptors\<close>

text \<open>The properties of a well-known element that the change adaptor reads.\<close>

record WellknownElement =
  target_name :: string
  target_type :: string
  target_value :: string
  target_checked :: bool

record ChangeEvent =
  target :: WellknownElement

text \<open>A parameter with the default initializer \<^verbatim>\<open>= true\<close>: \<open>None\<close> is the omitted argument.\<close>

definition default_true :: "bool option \<Rightarrow> bool" where
  "default_true arg = (case arg of None \<Rightarrow> True | Some b \<Rightarrow> b)"

definition changeAdaptor ::
  "(string \<Rightarrow> jsval \<Rightarrow> bool option \<Rightarrow> 'r) \<Rightarrow> bool option \<Rightarrow> ChangeEvent \<Rightarrow> 'r" where
  "changeAdaptor prop validateConcurrently e =
     (let v = (if target_type (target e) \<noteq> ''checkbox''
               then JStr (target_value (target e))
               else JBool (target_checked (target e)))
      in prop (target_name (target e)) v (Some (default_true validateConcurrently)))"


section \<open>React's part: the component state and setState\<close>

record ProviderProps =
  defaultValues :: jsobj
  submitter :: handler
  validators :: "(string \<times> handler) list option"

record ProviderState =
  values_obj :: jsobj
  errors :: jsobj
  isSubmitting :: bool

text \<open>The object handed to \<^verbatim>\<open>setState\<close>: the fields it names, with their new values.\<close>

record PartialState =
  values_part :: "jsobj option"
  errors_part :: "jsobj option"
  isSubmitting_part :: "bool option"

definition no_field :: PartialState where
  "no_field = \<lparr>values_part = None, errors_part = None, isSubmitting_part = None\<rparr>"

definition merge_state :: "PartialState \<Rightarrow> ProviderState \<Rightarrow> ProviderState" where
  "merge_state partial s =
     \<lparr>values_obj = (case values_part partial of None \<Rightarrow> values_obj s | Some x \<Rightarrow> x),
      errors = (case errors_part partial of None \<Rightarrow> errors s | Some x \<Rightarrow> x),
      isSubmitting = (case isSubmitting_part partial of None \<Rightarrow> isSubmitting s | Some x \<Rightarrow> x)\<rparr>"

text \<open>
  The component instance. From the class: its props, its React state and the private flag
  \<open>canSetStateFromAsync\<close>. From React: whether the instance is mounted (\<open>mounted\<close>) and, while
  an event handler runs inside a batched update, the partial states queued so far
  (\<open>batch\<close>; \<open>None\<close> outside a batch). For the statements: every partial state that
  \<^verbatim>\<open>setState\<close> has accepted, in order (\<open>updates\<close>), what the inspector has been told
  (\<open>inspected\<close>), and the arguments of every validator and submitter call (\<open>invoked\<close>).
  \<^verbatim>\<open>props.defaultValues\<close> is an object, as \<^verbatim>\<open>propTypes\<close> requires.
\<close>

record FormStateProvider =
  props :: ProviderProps
  state :: ProviderState
  canSetStateFromAsync :: bool
  mounted :: bool
  batch :: "PartialState list option"
  updates :: "PartialState list"
  inspected :: "jsval list list"
  invoked :: "(string \<times> jsobj) list"

type_synonym pending = "(FormStateProvider \<Rightarrow> FormStateProvider) option"

text \<open>
  \<^verbatim>\<open>this.setState(partial)\<close> is React's and not part of the repository. On an instance that
  is not mounted React drops the update. Inside a batched update (an event handler that
  React dispatches) the partial state is queued and \<^verbatim>\<open>this.state\<close> keeps its value until
  the handler has returned. Outside a batch (a promise callback, a timer) the partial
  state is merged at once.
\<close>

definition setState :: "PartialState \<Rightarrow> FormStateProvider \<Rightarrow> FormStateProvider" where
  "setState partial c =
     (if \<not> mounted c then c
      else (case batch c of
              None \<Rightarrow>
                c\<lparr>state := merge_state partial (state c), updates := updates c @ [partial]\<rparr>
            | Some q \<Rightarrow>
                c\<lparr>batch := Some (q @ [partial]), updates := updates c @ [partial]\<rparr>))"

text \<open>The end of a batch: the queued partial states are merged in order.\<close>

definition flush :: "FormStateProvider \<Rightarrow> FormStateProvider" where
  "flush c =
     (case batch c of
        None \<Rightarrow> c
      | Some q \<Rightarrow> c\<lparr>state := foldl (\<lambda>s partial. merge_state partial s) (state c) q,
                      batch := None\<rparr>)"

text \<open>An event handler dispatched by React runs inside a batch, which ends when it returns.\<close>

definition batchedUpdates ::
  "(FormStateProvider \<Rightarrow> FormStateProvider \<times> pending) \<Rightarrow> FormStateProvider \<Rightarrow>
     FormStateProvider \<times> pending" where
  "batchedUpdates eventHandler c =
     (case batch c of
        Some q \<Rightarrow> eventHandler c
      | None \<Rightarrow> (case eventHandler (c\<lparr>batch := Some []\<rparr>) of (c1, k) \<Rightarrow> (flush c1, k)))"

section \<open>formStateProvider\<close>

definition notify :: "jsval list \<Rightarrow> FormStateProvider \<Rightarrow> FormStateProvider" where
  "notify args c = c\<lparr>inspected := inspected c @ [args]\<rparr>"

definition constructor :: "ProviderProps \<Rightarrow> FormStateProvider" where
  "constructor p =
     \<lparr>props = p,
      state = \<lparr>values_obj = defaultValues p, errors = [], isSubmitting = False\<rparr>,
      canSetStateFromAsync = False,
      mounted = False,
      batch = None,
      updates = [],
      inspected = [],
      invoked = []\<rparr>"

definition componentWillMount :: "FormStateProvider \<Rightarrow> FormStateProvider" where
  "componentWillMount c = notify [JStr ''mount'', JStr ''form''] (c\<lparr>canSetStateFromAsync := True\<rparr>)"

definition componentWillUnmount :: "FormStateProvider \<Rightarrow> FormStateProvider" where
  "componentWillUnmount c =
     (notify [JStr ''unmount'', JStr ''form''] c)\<lparr>canSetStateFromAsync := False\<rparr>"

text \<open>
  React mounts the instance, calling \<^verbatim>\<open>componentWillMount\<close> on the way, and unmounts it
  after \<^verbatim>\<open>componentWillUnmount\<close> has run.
\<close>

definition mountComponent :: "FormStateProvider \<Rightarrow> FormStateProvider" where
  "mountComponent c = componentWillMount (c\<lparr>mounted := True\<rparr>)"

definition unmountComponent :: "FormStateProvider \<Rightarrow> FormStateProvider" where
  "unmountComponent c = (componentWillUnmount c)\<lparr>mounted := False\<rparr>"

fun isPristine_loop :: "string list \<Rightarrow> jsobj \<Rightarrow> jsobj \<Rightarrow> bool" where
  "isPristine_loop [] vs ds = True"
| "isPristine_loop (name # names) vs ds =
     (if \<not> strict_eq (prop_get vs name) (prop_get ds name) then False
      else isPristine_loop names vs ds)"

definition isPristine :: "FormStateProvider \<Rightarrow> bool" where
  "isPristine c =
     isPristine_loop (object_keys (values_obj (state c))) (values_obj (state c))
       (defaultValues (props c))"

fun hasError_loop :: "string list \<Rightarrow> jsobj \<Rightarrow> bool" where
  "hasError_loop [] es = False"
| "hasError_loop (name # names) es =
     (if \<not> is_nullish (prop_get es name) then True else hasError_loop names es)"

definition hasError :: "FormStateProvider \<Rightarrow> bool" where
  "hasError c = hasError_loop (object_keys (errors (state c))) (errors (state c))"

definition updateErrors :: "string \<Rightarrow> jsval \<Rightarrow> FormStateProvider \<Rightarrow> FormStateProvider" where
  "updateErrors name newErrors c =
     (if canSetStateFromAsync c
      then (let errs = mergeErrors (defaultValues (props c)) (errors (state c)) name newErrors
            in setState (no_field\<lparr>errors_part := Some errs\<rparr>) c)
      else c)"

text \<open>
  The operation handed to the engine calls the handler with the values and the key, which
  is recorded in \<open>invoked\<close>.
\<close>

definition call_handler ::
  "handler \<Rightarrow> jsobj \<Rightarrow> string \<Rightarrow> FormStateProvider \<Rightarrow> outcome \<times> FormStateProvider" where
  "call_handler h vs name c = (h vs name, c\<lparr>invoked := invoked c @ [(name, vs)]\<rparr>)"

definition invokeValidator ::
  "string \<Rightarrow> jsval \<Rightarrow> FormStateProvider \<Rightarrow> FormStateProvider \<times> pending" where
  "invokeValidator name newValue c =
     (case validators (props c) of
        None \<Rightarrow> (c, None)
      | Some vds \<Rightarrow>
          (case map_of vds name of
             None \<Rightarrow> (c, None)
           | Some validator \<Rightarrow>
               (let currentValues = map_set (values_obj (state c)) name newValue
                in invokeHandler name
                     (call_handler validator currentValues name)
                     (updateErrors name JNull)
                     (\<lambda>reason. updateErrors name reason)
                     notify c)))"

definition change ::
  "string \<Rightarrow> jsval \<Rightarrow> bool option \<Rightarrow> FormStateProvider \<Rightarrow> FormStateProvider \<times> pending" where
  "change name newValue validateConcurrently c =
     (if isDefinedName (defaultValues (props c)) name ''props.formChange''
      then (let c1 = setState
                       (no_field\<lparr>values_part :=
                          Some (map_set (values_obj (state c)) name newValue)\<rparr>) c;
                c2 = notify [JStr ''props.formChange'', JStr name, newValue] c1
            in if default_true validateConcurrently
               then invokeValidator name newValue c2
               else (c2, None))
      else (c, None))"

definition validate :: "string \<Rightarrow> FormStateProvider \<Rightarrow> FormStateProvider \<times> pending" where
  "validate name c =
     (if isDefinedName (defaultValues (props c)) name ''props.formValidate''
      then (case invokeValidator name (prop_get (values_obj (state c)) name) c of
              (c1, k) \<Rightarrow> (notify [JStr ''props.formValidate'', JStr name] c1, k))
      else (c, None))"

definition endSubmitting :: "FormStateProvider \<Rightarrow> FormStateProvider" where
  "endSubmitting c =
     (if canSetStateFromAsync c
      then setState (no_field\<lparr>isSubmitting_part := Some False\<rparr>) c
      else c)"

text \<open>
  \<^verbatim>\<open>submit(event?)\<close>: \<^verbatim>\<open>preventDefault\<close> acts on the event only, so the event is left out.
  The operation reads \<^verbatim>\<open>this.state.values\<close> when the engine runs it.
\<close>

definition submit :: "FormStateProvider \<Rightarrow> FormStateProvider \<times> pending" where
  "submit c =
     (let c1 = setState (no_field\<lparr>isSubmitting_part := Some True\<rparr>) c;
          c2 = notify [JStr ''form'', JStr ''props.formSubmit''] c1
      in invokeHandler ''form''
           (\<lambda>c3. call_handler (submitter (props c3)) (values_obj (state c3)) ''form'' c3)
           (\<lambda>c3. endSubmitting (updateErrors ''form'' JNull c3))
           (\<lambda>reason c3. endSubmitting (updateErrors ''form'' reason c3))
           notify c2)"

definition reset :: "FormStateProvider \<Rightarrow> FormStateProvider" where
  "reset c =
     (if canSetStateFromAsync c
      then notify [JStr ''props.formReset'', JStr ''form'']
             (setState \<lparr>values_part = Some (defaultValues (props c)), errors_part = Some [],
                        isSubmitting_part = Some False\<rparr> c)
      else c)"

text \<open>The data handed to the wrapped form by \<^verbatim>\<open>render\<close>, and the pre-adapted change handler.\<close>

record FormProps =
  formValues :: jsobj
  formErrors :: jsobj
  formIsSubmitting :: bool
  formIsPristine :: bool
  formHasError :: bool

definition render :: "FormStateProvider \<Rightarrow> FormProps" where
  "render c =
     \<lparr>formValues = values_obj (state c),
      formErrors = errors (state c),
      formIsSubmitting = isSubmitting (state c),
      formIsPristine = isPristine c,
      formHasError = hasError c\<rparr>"

definition formOnChange :: "ChangeEvent \<Rightarrow> FormStateProvider \<Rightarrow> FormStateProvider \<times> pending" where
  "formOnChange e c = changeAdaptor (\<lambda>name v vc. change name v vc c) None e"

section \<open>Observation of the engine and example forms\<close>

text \<open>
  The callbacks of one invocation, observed: \<open>fired name res\<close> runs the engine on an
  operation with outcome \<open>res\<close>, with callbacks that log themselves, and gives the calls
  logged when the engine returns and the calls logged once a pending promise has settled.
\<close>

datatype callback = OnResolve | OnReject jsval

definition fired :: "string \<Rightarrow> outcome \<Rightarrow> callback list \<times> callback list" where
  "fired name res =
     (let r = invokeHandler name (\<lambda>s. (res, s))
                (\<lambda>s. (fst s @ [OnResolve], snd s))
                (\<lambda>reason s. (fst s @ [OnReject reason], snd s))
                (\<lambda>args s. (fst s, snd s @ [args]))
                ([], [])
      in (fst (fst r), fst (completion r (fst r))))"

text \<open>
  The form of the specification's scenarios: fields \<open>email\<close> and \<open>age\<close>, a validator that
  rejects an age under 18, and a submitter given by the caller.
\<close>

definition demo_props :: "handler \<Rightarrow> ProviderProps" where
  "demo_props sub =
     \<lparr>defaultValues = [(''email'', JStr ''''), (''age'', JNum 0)],
      submitter = sub,
      validators = Some [(''age'', \<lambda>vs name.
         (case prop_get vs ''age'' of
            JNum n \<Rightarrow> if n < 18 then Pending (RejectedWith (JStr ''too young''))
                      else Pending (Fulfilled JUndefined)
          | _ \<Rightarrow> Returned JUndefined))]\<rparr>"

text \<open>Four submitters: a promise that rejects, one that resolves, a return and a throw.\<close>

definition server_error :: handler where
  "server_error vs name = Pending (RejectedWith (JObj 1 [(''general'', JStr ''server error'')]))"

definition resolving :: handler where
  "resolving vs name = Pending (Fulfilled JUndefined)"

definition returning :: handler where
  "returning vs name = Returned JUndefined"

definition throwing :: handler where
  "throwing vs name = Threw (JStr ''offline'')"

definition demo_with :: "handler \<Rightarrow> FormStateProvider" where
  "demo_with sub = mountComponent (constructor (demo_props sub))"

definition demo_mounted :: FormStateProvider where
  "demo_mounted = demo_with server_error"

text \<open>The form after a change event on \<open>email\<close>, and that form unmounted.\<close>

definition demo_changed :: FormStateProvider where
  "demo_changed =
     fst (batchedUpdates (change ''email'' (JStr ''a@b.com'') (Some False)) demo_mounted)"

definition demo_unmounted :: FormStateProvider where
  "demo_unmounted = unmountComponent demo_changed"

text \<open>The mounted form inside an event handler, before any update is queued.\<close>

definition demo_in_event :: FormStateProvider where
  "demo_in_event = demo_mounted\<lparr>batch := Some []\<rparr>"

text \<open>A form with a numeric field whose default is \<open>NaN\<close>.\<close>

definition nan_props :: ProviderProps where
  "nan_props =
     \<lparr>defaultValues = [(''name'', JStr ''''), (''ratio'', JNaN)],
      submitter = returning,
      validators = None\<rparr>"

definition nan_mounted :: FormStateProvider where
  "nan_mounted = mountComponent (constructor nan_props)"

text \<open>
  Invariants used below: the React state with a cleared flag (\<open>frozen\<close>), everything
  \<^verbatim>\<open>setState\<close> can touch on an instance that is not mounted (\<open>dropped\<close>), and the values
  after the batch together with the props (\<open>keeps\<close>).
\<close>

definition frozen :: "ProviderState \<Rightarrow> FormStateProvider \<Rightarrow> bool" where
  "frozen st c = (state c = st \<and> \<not> canSetStateFromAsync c)"


definition keeps :: "jsobj \<Rightarrow> ProviderProps \<Rightarrow> FormStateProvider \<Rightarrow> bool" where
  "keeps vs p c = (values_obj (state (flush c)) = vs \<and> props c = p)"

lemmas demo_defs = demo_props_def server_error_def
  demo_with_def demo_mounted_def demo_changed_def demo_unmounted_def demo_in_event_def
  mountComponent_def unmountComponent_def batchedUpdates_def flush_def merge_state_def
  no_field_def
  componentWillMount_def componentWillUnmount_def constructor_def notify_def setState_def
  change_def validate_def submit_def reset_def invokeValidator_def invokeHandler_def
  call_handler_def updateErrors_def endSubmitting_def isDefinedName_def object_keys_def
  map_set_def prop_get_def default_true_def completion_def mergeErrors_def sanitizeErrors_def
  Let_def

section \<open>Facts about objects\<close>

lemma map_of_map_set: "map_of (map_set obj name v) = (map_of obj)(name \<mapsto> v)"
  by (simp add: map_set_def update_conv')

lemma prop_get_map_set:
  "prop_get (map_set obj name v) k = (if k = name then v else prop_get obj k)"
  by (simp add: prop_get_def map_of_map_set)

lemma object_keys_map_set:
  "set (object_keys (map_set obj name v)) = insert name (set (object_keys obj))"
  by (simp add: object_keys_def map_set_def dom_update)


lemma strict_eq_self: "strict_eq d d = (d \<noteq> JNaN)"
  by (cases d) simp_all

lemma isPristine_loop_iff:
  "isPristine_loop names vs ds = (\<forall>n \<in> set names. strict_eq (prop_get vs n) (prop_get ds n))"
  by (induction names) auto

section \<open>Invariants of an invocation\<close>

text \<open>
  A property kept by the operation, the callbacks and the inspector holds when the engine
  returns, and a property kept by the callbacks and the inspector holds after the
  completion.
\<close>

lemma invokeHandler_fst_inv:
  assumes "\<And>s. P s \<Longrightarrow> P (onResolve s)"
    and "\<And>r s. P s \<Longrightarrow> P (onReject r s)"
    and "\<And>a s. P s \<Longrightarrow> P (nt a s)"
    and "\<And>s. P s \<Longrightarrow> P (snd (handle s))"
    and "P s"
  shows "P (fst (invokeHandler name handle onResolve onReject nt s))"
proof -
  obtain res s1 where h: "handle (nt [JStr name, JStr ''start''] s) = (res, s1)"
    by (cases "handle (nt [JStr name, JStr ''start''] s)")
  have "P (nt [JStr name, JStr ''start''] s)" using assms(3,5) by blast
  from assms(4) [OF this] h have s1: "P s1" by simp
  show ?thesis
    using h s1 assms(1,2,3)
    by (simp add: invokeHandler_def split: outcome.splits settlement.splits)
qed

lemma invokeHandler_completion_inv:
  assumes "\<And>s. P s \<Longrightarrow> P (onResolve s)"
    and "\<And>r s. P s \<Longrightarrow> P (onReject r s)"
    and "\<And>a s. P s \<Longrightarrow> P (nt a s)"
    and "P s'"
  shows "P (completion (invokeHandler name handle onResolve onReject nt s) s')"
proof -
  obtain res s1 where h: "handle (nt [JStr name, JStr ''start''] s) = (res, s1)"
    by (cases "handle (nt [JStr name, JStr ''start''] s)")
  show ?thesis
    using h assms
    by (simp add: invokeHandler_def completion_def split: outcome.splits settlement.splits)
qed

lemma invokeValidator_fst_inv:
  assumes "\<And>a s. P s \<Longrightarrow> P (notify a s)"
    and "\<And>e s. P s \<Longrightarrow> P (updateErrors name e s)"
    and "\<And>h vs s. P s \<Longrightarrow> P (snd (call_handler h vs name s))"
    and "P c"
  shows "P (fst (invokeValidator name v c))"
proof (cases "validators (props c)")
  case None
  with assms(4) show ?thesis by (simp add: invokeValidator_def)
next
  case (Some vds)
  show ?thesis
  proof (cases "map_of vds name")
    case None
    with Some assms(4) show ?thesis by (simp add: invokeValidator_def)
  next
    case (Some h)
    have "P (fst (invokeHandler name
            (call_handler h (map_set (values_obj (state c)) name v) name)
            (updateErrors name JNull) (\<lambda>reason. updateErrors name reason) notify c))"
      by (rule invokeHandler_fst_inv) (simp_all add: assms)
    with Some \<open>validators (props c) = Some vds\<close> show ?thesis
      by (simp add: invokeValidator_def)
  qed
qed

lemma invokeValidator_completion_inv:
  assumes "\<And>a s. P s \<Longrightarrow> P (notify a s)"
    and "\<And>e s. P s \<Longrightarrow> P (updateErrors name e s)"
    and "P c'"
  shows "P (completion (invokeValidator name v c) c')"
proof (cases "validators (props c)")
  case None
  with assms(3) show ?thesis by (simp add: invokeValidator_def completion_def)
next
  case (Some vds)
  show ?thesis
  proof (cases "map_of vds name")
    case None
    with Some assms(3) show ?thesis by (simp add: invokeValidator_def completion_def)
  next
    case (Some h)
    have "P (completion (invokeHandler name
            (call_handler h (map_set (values_obj (state c)) name v) name)
            (updateErrors name JNull) (\<lambda>reason. updateErrors name reason) notify c) c')"
      by (rule invokeHandler_completion_inv) (simp_all add: assms)
    with Some \<open>validators (props c) = Some vds\<close> show ?thesis
      by (simp add: invokeValidator_def)
  qed
qed

text \<open>A property kept by the inspector and the two guarded setters holds after a completion.\<close>

lemma completion_inv:
  assumes "\<And>a s. P s \<Longrightarrow> P (notify a s)"
    and "\<And>n e s. P s \<Longrightarrow> P (updateErrors n e s)"
    and "\<And>s. P s \<Longrightarrow> P (endSubmitting s)"
    and "P c'"
  shows "P (completion (change name v vc c) c')"
    and "P (completion (validate name c) c')"
    and "P (completion (submit c) c')"
proof -
  have iv: "P (completion (invokeValidator name w d) c')" for w d
    by (rule invokeValidator_completion_inv) (simp_all add: assms)
  have "completion (change name v vc c) c' = c'
      \<or> (\<exists>c2. completion (change name v vc c) c' = completion (invokeValidator name v c2) c')"
    by (auto simp add: change_def Let_def completion_def)
  with iv assms(4) show "P (completion (change name v vc c) c')" by auto
  have "completion (validate name c) c' = c'
      \<or> completion (validate name c) c'
          = completion (invokeValidator name (prop_get (values_obj (state c)) name) c) c'"
    by (simp add: validate_def completion_def split: prod.splits)
  with iv assms(4) show "P (completion (validate name c) c')" by auto
  show "P (completion (submit c) c')"
    unfolding submit_def Let_def
    by (rule invokeHandler_completion_inv) (simp_all add: assms)
qed

text \<open>
  A property kept by the inspector, by \<^verbatim>\<open>setState\<close> and by a handler call holds when
  \<open>change\<close>, \<open>validate\<close>, \<open>submit\<close> or \<open>reset\<close> returns.
\<close>

lemma call_inv:
  assumes n: "\<And>a s. P s \<Longrightarrow> P (notify a s)"
    and u: "\<And>p s. P s \<Longrightarrow> P (setState p s)"
    and h: "\<And>f vs k s. P s \<Longrightarrow> P (snd (call_handler f vs k s))"
    and c: "P c"
  shows "P (fst (change name v vc c))"
    and "P (fst (validate name c))"
    and "P (fst (submit c))"
    and "P (reset c)"
proof -
  have ue: "\<And>k e s. P s \<Longrightarrow> P (updateErrors k e s)"
    by (simp add: updateErrors_def Let_def u)
  have es: "\<And>s. P s \<Longrightarrow> P (endSubmitting s)"
    by (simp add: endSubmitting_def u)
  have iv: "P (fst (invokeValidator name w d))" if "P d" for w d
    by (rule invokeValidator_fst_inv) (simp_all add: n ue h that)
  show "P (fst (change name v vc c))"
    by (simp add: change_def Let_def c n u iv)
  have "fst (validate name c) = c
      \<or> fst (validate name c) = notify [JStr ''props.formValidate'', JStr name]
           (fst (invokeValidator name (prop_get (values_obj (state c)) name) c))"
    by (simp add: validate_def split: prod.splits)
  with c iv n show "P (fst (validate name c))" by auto
  show "P (fst (submit c))"
    unfolding submit_def Let_def
    by (rule invokeHandler_fst_inv) (simp_all add: n u h c ue es)
  show "P (reset c)"
    by (simp add: reset_def c n u)
qed

section \<open>What each step leaves alone\<close>


lemma unmountComponent_unmounted:
  "\<not> mounted (unmountComponent c)" "\<not> canSetStateFromAsync (unmountComponent c)"
  by (simp_all add: unmountComponent_def componentWillUnmount_def)

lemma updateErrors_unmounted: "\<not> canSetStateFromAsync c \<Longrightarrow> updateErrors name e c = c"
  by (simp add: updateErrors_def)

lemma endSubmitting_unmounted: "\<not> canSetStateFromAsync c \<Longrightarrow> endSubmitting c = c"
  by (simp add: endSubmitting_def)

lemma notify_fields:
  "state (notify a c) = state c" "props (notify a c) = props c"
  "canSetStateFromAsync (notify a c) = canSetStateFromAsync c"
  "mounted (notify a c) = mounted c" "batch (notify a c) = batch c"
  "updates (notify a c) = updates c" "invoked (notify a c) = invoked c"
  by (simp_all add: notify_def)

lemma call_handler_fields:
  "state (snd (call_handler h vs name c)) = state c"
  "props (snd (call_handler h vs name c)) = props c"
  "canSetStateFromAsync (snd (call_handler h vs name c)) = canSetStateFromAsync c"
  "mounted (snd (call_handler h vs name c)) = mounted c"
  "batch (snd (call_handler h vs name c)) = batch c"
  "updates (snd (call_handler h vs name c)) = updates c"
  by (simp_all add: call_handler_def)

lemma setState_fields:
  "props (setState p c) = props c"
  "canSetStateFromAsync (setState p c) = canSetStateFromAsync c"
  "mounted (setState p c) = mounted c"
  "invoked (setState p c) = invoked c"
  "inspected (setState p c) = inspected c"
  by (simp_all add: setState_def split: option.splits)

lemma flush_fields:
  "props (flush c) = props c"
  "canSetStateFromAsync (flush c) = canSetStateFromAsync c"
  "mounted (flush c) = mounted c"
  "state (flush (notify a c)) = state (flush c)"
  "state (flush (snd (call_handler h vs name c))) = state (flush c)"
  by (simp_all add: flush_def notify_def call_handler_def split: option.splits)

lemma frozen_steps:
  "frozen st c \<Longrightarrow> frozen st (notify a c)"
  "frozen st c \<Longrightarrow> frozen st (updateErrors name e c)"
  "frozen st c \<Longrightarrow> frozen st (endSubmitting c)"
  by (simp_all add: frozen_def notify_fields updateErrors_unmounted endSubmitting_unmounted)


lemma values_after_setState:
  "values_part p = None \<Longrightarrow>
     values_obj (state (flush (setState p c))) = values_obj (state (flush c))"
  "mounted c \<Longrightarrow> values_part p = Some x \<Longrightarrow> values_obj (state (flush (setState p c))) = x"
  by (simp_all add: setState_def flush_def merge_state_def split: option.splits)

lemma keeps_steps:
  "keeps vs p c \<Longrightarrow> keeps vs p (notify a c)"
  "keeps vs p c \<Longrightarrow> keeps vs p (updateErrors name e c)"
  "keeps vs p c \<Longrightarrow> keeps vs p (snd (call_handler h ws name c))"
  by (simp_all add: keeps_def notify_fields call_handler_fields flush_fields updateErrors_def
      Let_def setState_fields values_after_setState no_field_def)

lemma change_keeps:
  assumes "name \<in> set (object_keys (defaultValues (props c)))" and "mounted c"
  shows "keeps (map_set (values_obj (state c)) name v) (props c) (fst (change name v vc c))"
proof -
  let ?c2 = "notify [JStr ''props.formChange'', JStr name, v]
      (setState (no_field\<lparr>values_part := Some (map_set (values_obj (state c)) name v)\<rparr>) c)"
  have f: "keeps (map_set (values_obj (state c)) name v) (props c) ?c2"
    using assms(2)
    by (simp add: keeps_def flush_fields notify_fields setState_fields values_after_setState
        no_field_def)
  have "keeps (map_set (values_obj (state c)) name v) (props c)
          (fst (invokeValidator name v ?c2))"
    by (rule invokeValidator_fst_inv) (simp_all add: keeps_steps f)
  with f assms(1) show ?thesis
    by (simp add: change_def Let_def isDefinedName_def)
qed

text \<open>The steps of a submission, one at a time.\<close>

lemma setState_mounted:
  "mounted c \<Longrightarrow> updates (setState p c) = updates c @ [p]"
  "mounted c \<Longrightarrow> state (flush (setState p c)) = merge_state p (state (flush c))"
  by (simp_all add: setState_def flush_def split: option.splits)

lemma setState_isSubmitting:
  "values_obj (state (setState (no_field\<lparr>isSubmitting_part := b\<rparr>) c)) = values_obj (state c)"
  "errors (state (setState (no_field\<lparr>isSubmitting_part := b\<rparr>) c)) = errors (state c)"
  by (simp_all add: setState_def merge_state_def no_field_def split: option.splits)

lemma form_done:
  assumes "mounted c" and "canSetStateFromAsync c"
  shows "updates (endSubmitting (updateErrors ''form'' e c)) =
           updates c @
             [no_field\<lparr>errors_part := Some (mergeErrors (defaultValues (props c))
                                           (errors (state c)) ''form'' e)\<rparr>,
              no_field\<lparr>isSubmitting_part := Some False\<rparr>]"
    and "state (flush (endSubmitting (updateErrors ''form'' e c))) =
           (state (flush c))\<lparr>errors := mergeErrors (defaultValues (props c))
                                        (errors (state c)) ''form'' e,
                              isSubmitting := False\<rparr>"
  using assms
  by (simp_all add: updateErrors_def endSubmitting_def Let_def setState_fields setState_mounted
      merge_state_def no_field_def)

lemma submit_shape:
  "submit c =
     (let c3 = snd (call_handler (submitter (props c)) (values_obj (state c)) ''form''
                 (notify [JStr ''form'', JStr ''start'']
                   (notify [JStr ''form'', JStr ''props.formSubmit'']
                     (setState (no_field\<lparr>isSubmitting_part := Some True\<rparr>) c))))
      in case submitter (props c) (values_obj (state c)) ''form'' of
           Returned v \<Rightarrow>
             (notify [JStr ''form'', JStr ''resolve'']
                (endSubmitting (updateErrors ''form'' JNull c3)), None)
         | Threw reason \<Rightarrow>
             (notify [JStr ''form'', JStr ''reject'', reason]
                (endSubmitting (updateErrors ''form'' reason c3)), None)
         | Pending (Fulfilled v) \<Rightarrow>
             (c3, Some (\<lambda>s2. notify [JStr ''form'', JStr ''resolve'']
                               (endSubmitting (updateErrors ''form'' JNull s2))))
         | Pending (RejectedWith reason) \<Rightarrow>
             (c3, Some (\<lambda>s2. notify [JStr ''form'', JStr ''reject'', reason]
                               (endSubmitting (updateErrors ''form'' reason s2))))
         | Pending Unsettled \<Rightarrow> (c3, None))"
  by (simp add: submit_def invokeHandler_def call_handler_def Let_def notify_fields
      setState_fields setState_isSubmitting split: outcome.splits settlement.splits)

text \<open>The example forms, evaluated.\<close>

lemma demo_with_shape:
  "state (demo_with sub)
     = \<lparr>values_obj = [(''email'', JStr ''''), (''age'', JNum 0)], errors = [],
        isSubmitting = False\<rparr>"
  "canSetStateFromAsync (demo_with sub)"
  "mounted (demo_with sub)"
  "batch (demo_with sub) = None"
  "updates (demo_with sub) = []"
  "invoked (demo_with sub) = []"
  "defaultValues (props (demo_with sub)) = [(''email'', JStr ''''), (''age'', JNum 0)]"
  "submitter (props (demo_with sub)) = sub"
  by (simp_all add: demo_defs)

lemma demo_merged:
  "\<not> is_nullish e \<Longrightarrow>
     mergeErrors [(''email'', JStr ''''), (''age'', JNum 0)] [] ''form'' e = [(''form'', e)]"
  "mergeErrors [(''email'', JStr ''''), (''age'', JNum 0)] [] ''form'' JNull = [(''form'', JNull)]"
  by (simp_all add: mergeErrors_def sanitizeErrors_def map_set_def)

section \<open>The error model\<close>

text \<open>
  C4 (merge locality). Merging the raw outcome of key \<open>A\<close> into an error mapping \<open>E\<close>
  leaves every other key \<open>B\<close> as it is in \<open>E\<close>: present or absent alike, and with the same
  entry.
\<close>

theorem mergeErrors_local:
  "B \<noteq> A \<Longrightarrow> map_of (mergeErrors defn E A raw) B = map_of E B
     \<and> prop_get (mergeErrors defn E A raw) B = prop_get E B"
  by (simp add: mergeErrors_def map_of_map_set prop_get_def)

theorem mergeErrors_local_witness:
  "''email'' \<noteq> ''age''
   \<and> map_of (mergeErrors [(''email'', JStr ''''), (''age'', JNum 0)]
        [(''email'', JStr ''taken''), (''age'', JNull)] ''age'' (JStr ''too young'')) ''email''
     = Some (JStr ''taken'')
   \<and> map_of (mergeErrors [(''email'', JStr ''''), (''age'', JNum 0)]
        [(''email'', JStr ''taken''), (''age'', JNull)] ''age'' (JStr ''too young'')) ''age''
     = Some (JStr ''too young'')"
proof -
  have ne: "''email'' \<noteq> ''age''" by simp
  have "map_of (mergeErrors [(''email'', JStr ''''), (''age'', JNum 0)]
        [(''email'', JStr ''taken''), (''age'', JNull)] ''age'' (JStr ''too young'')) ''age''
     = Some (JStr ''too young'')"
    by (simp add: mergeErrors_def sanitizeErrors_def object_keys_def map_set_def)
  with ne mergeErrors_local [OF ne, of "[(''email'', JStr ''''), (''age'', JNum 0)]"
      "[(''email'', JStr ''taken''), (''age'', JNull)]" "JStr ''too young''"]
  show ?thesis by simp
qed

section \<open>The invocation engine\<close>

text \<open>
  C5 (one callback per invocation). For an operation that completes, exactly one callback
  is called, once: \<open>onResolve\<close> when the operation returns or its promise is fulfilled,
  \<open>onReject\<close> with the reason when it throws or its promise is rejected. A throw is an
  outcome the engine turns into the reject callback. For a promise nothing is called
  before it settles.
\<close>

theorem invokeHandler_one_callback:
  "fired name (Returned v) = ([OnResolve], [OnResolve])
   \<and> fired name (Threw reason) = ([OnReject reason], [OnReject reason])
   \<and> fired name (Pending (Fulfilled v)) = ([], [OnResolve])
   \<and> fired name (Pending (RejectedWith reason)) = ([], [OnReject reason])"
  by (simp add: fired_def invokeHandler_def completion_def)

section \<open>The change adaptor\<close>

text \<open>
  C10 (checkbox adaptation). The pre-adapted change handler forwards to \<open>change\<close> the
  element's name and, as value, the element's \<open>checked\<close> property when its type is
  \<open>checkbox\<close> and its \<open>value\<close> property otherwise, with concurrent validation on.
\<close>

theorem formOnChange_value:
  "formOnChange e c =
     change (target_name (target e))
       (if target_type (target e) = ''checkbox'' then JBool (target_checked (target e))
        else JStr (target_value (target e)))
       (Some True) c"
  by (simp add: formOnChange_def changeAdaptor_def default_true_def)

section \<open>Completions after unmount\<close>

text \<open>
  C1 (post-unmount silence). Whatever call started it (\<open>change\<close>, \<open>validate\<close> or \<open>submit\<close>,
  in any state \<open>c\<close>), a completion that arrives at a component \<open>c'\<close> whose flag
  \<open>canSetStateFromAsync\<close> is cleared leaves the React state of \<open>c'\<close> as it is: values,
  errors and \<open>isSubmitting\<close>. The two guarded setters the callbacks are made of,
  \<open>updateErrors\<close> and \<open>endSubmitting\<close>, leave the whole component as it is.
\<close>

theorem completion_after_unmount:
  "\<not> canSetStateFromAsync c' \<Longrightarrow>
     state (completion (change name v vc c) c') = state c'
   \<and> state (completion (validate name c) c') = state c'
   \<and> state (completion (submit c) c') = state c'
   \<and> updateErrors key e c' = c'
   \<and> endSubmitting c' = c'"
proof -
  assume u: "\<not> canSetStateFromAsync c'"
  then have f: "frozen (state c') c'" by (simp add: frozen_def)
  have "frozen (state c') (completion (change name v vc c) c')"
    by (rule completion_inv(1)) (simp_all add: frozen_steps f)
  moreover have "frozen (state c') (completion (validate name c) c')"
    by (rule completion_inv(2)) (simp_all add: frozen_steps f)
  moreover have "frozen (state c') (completion (submit c) c')"
    by (rule completion_inv(3)) (simp_all add: frozen_steps f)
  ultimately show ?thesis
    using u by (simp add: frozen_def updateErrors_unmounted endSubmitting_unmounted)
qed

text \<open>
  Scenario 5: submit, unmount, then the submitter's promise rejects. A completion is
  pending; after unmount it changes nothing, while on the mounted component it records
  the error and ends the submission.
\<close>

theorem completion_after_unmount_witness:
  "\<not> canSetStateFromAsync (unmountComponent (fst (submit demo_mounted)))
   \<and> snd (submit demo_mounted) \<noteq> None
   \<and> state (completion (submit demo_mounted) (unmountComponent (fst (submit demo_mounted))))
       = \<lparr>values_obj = [(''email'', JStr ''''), (''age'', JNum 0)], errors = [],
          isSubmitting = True\<rparr>
   \<and> state (completion (submit demo_mounted) (fst (submit demo_mounted)))
       = \<lparr>values_obj = [(''email'', JStr ''''), (''age'', JNum 0)],
          errors = [(''form'', JObj 1 [(''general'', JStr ''server error'')])],
          isSubmitting = False\<rparr>"
proof -
  let ?c' = "unmountComponent (fst (submit demo_mounted))"
  have u: "\<not> canSetStateFromAsync ?c'"
    by (simp add: unmountComponent_def componentWillUnmount_def)
  have st: "state ?c' = \<lparr>values_obj = [(''email'', JStr ''''), (''age'', JNum 0)], errors = [],
          isSubmitting = True\<rparr>"
    by (simp add: demo_defs)
  have p: "snd (submit demo_mounted) \<noteq> None" by (simp add: demo_defs)
  have m: "state (completion (submit demo_mounted) (fst (submit demo_mounted)))
       = \<lparr>values_obj = [(''email'', JStr ''''), (''age'', JNum 0)],
          errors = [(''form'', JObj 1 [(''general'', JStr ''server error'')])],
          isSubmitting = False\<rparr>"
    by (simp add: demo_defs)
  from completion_after_unmount [OF u, of "''age''" "JNum 10" None demo_mounted
      "''form''" JNull]
  have "state (completion (submit demo_mounted) ?c') = state ?c'" by blast
  with u st p m show ?thesis by simp
qed

section \<open>Calls after unmount\<close>



section \<open>Reset\<close>

text \<open>
  C3 (reset), as the code has it. \<open>reset\<close> is guarded by \<open>canSetStateFromAsync\<close>: while the
  flag is set (and the instance mounted) it puts the values back to the defaults of the
  props, empties the errors and clears \<open>isSubmitting\<close>, at once outside a batch and at
  the end of the batch inside one; while the flag is cleared it changes nothing. The
  props and the flag are the same afterwards.
\<close>

theorem reset_guarded:
  "state (flush (reset c)) =
     (if canSetStateFromAsync c \<and> mounted c
      then \<lparr>values_obj = defaultValues (props c), errors = [], isSubmitting = False\<rparr>
      else state (flush c))
   \<and> state (reset (c\<lparr>batch := None\<rparr>)) =
     (if canSetStateFromAsync c \<and> mounted c
      then \<lparr>values_obj = defaultValues (props c), errors = [], isSubmitting = False\<rparr>
      else state c)
   \<and> props (reset c) = props c
   \<and> canSetStateFromAsync (reset c) = canSetStateFromAsync c"
  by (simp add: reset_def notify_def setState_def flush_def merge_state_def
      split: option.splits)

text \<open>
  After \<open>email\<close> was changed and the component unmounted, \<open>reset\<close> does not restore the
  defaults.
\<close>

theorem reset_unmounted_counterexample:
  "\<not> canSetStateFromAsync demo_unmounted
   \<and> values_obj (state (reset demo_unmounted)) \<noteq> defaultValues (props (reset demo_unmounted))"
  by (simp add: demo_defs)

section \<open>Submission\<close>

text \<open>
  C6 (submit), as the code has it. \<open>submit\<close> calls the submitter with the values of the
  state and the key \<open>form\<close>. On a mounted component it first hands \<open>isSubmitting\<close> true to
  \<^verbatim>\<open>setState\<close>; while the promise is pending that is the only update. A completion that
  arrives at a mounted component \<open>c'\<close> whose flag is set hands to \<^verbatim>\<open>setState\<close> first the
  errors merged at \<open>form\<close> with \<open>null\<close> (on resolve) or with the reason (on reject) and then
  \<open>isSubmitting\<close> false, in this order; a submitter that returns or throws has both done
  before \<open>submit\<close> returns. A completion that arrives when the flag is cleared hands
  nothing to \<^verbatim>\<open>setState\<close> and changes nothing.
\<close>

theorem submit_flow:
  "invoked (fst (submit c)) = invoked c @ [(''form'', values_obj (state c))]
   \<and> (mounted c \<and> submitter (props c) (values_obj (state c)) ''form'' = Pending p \<longrightarrow>
        updates (fst (submit c)) = updates c @ [no_field\<lparr>isSubmitting_part := Some True\<rparr>]
        \<and> state (flush (fst (submit c))) = (state (flush c))\<lparr>isSubmitting := True\<rparr>)
   \<and> (submitter (props c) (values_obj (state c)) ''form'' = Pending (Fulfilled v)
        \<and> mounted c' \<and> canSetStateFromAsync c' \<longrightarrow>
        updates (completion (submit c) c') =
          updates c' @
            [no_field\<lparr>errors_part := Some (mergeErrors (defaultValues (props c'))
                                          (errors (state c')) ''form'' JNull)\<rparr>,
             no_field\<lparr>isSubmitting_part := Some False\<rparr>]
        \<and> state (flush (completion (submit c) c')) =
          (state (flush c'))\<lparr>errors := mergeErrors (defaultValues (props c'))
                                        (errors (state c')) ''form'' JNull,
                             isSubmitting := False\<rparr>)
   \<and> (submitter (props c) (values_obj (state c)) ''form'' = Pending (RejectedWith reason)
        \<and> mounted c' \<and> canSetStateFromAsync c' \<longrightarrow>
        updates (completion (submit c) c') =
          updates c' @
            [no_field\<lparr>errors_part := Some (mergeErrors (defaultValues (props c'))
                                          (errors (state c')) ''form'' reason)\<rparr>,
             no_field\<lparr>isSubmitting_part := Some False\<rparr>]
        \<and> state (flush (completion (submit c) c')) =
          (state (flush c'))\<lparr>errors := mergeErrors (defaultValues (props c'))
                                        (errors (state c')) ''form'' reason,
                             isSubmitting := False\<rparr>)
   \<and> (submitter (props c) (values_obj (state c)) ''form'' = Returned v
        \<and> mounted c \<and> canSetStateFromAsync c \<longrightarrow>
        updates (fst (submit c)) =
          updates c @
            [no_field\<lparr>isSubmitting_part := Some True\<rparr>,
             no_field\<lparr>errors_part := Some (mergeErrors (defaultValues (props c))
                                          (errors (state c)) ''form'' JNull)\<rparr>,
             no_field\<lparr>isSubmitting_part := Some False\<rparr>]
        \<and> state (flush (fst (submit c))) =
          (state (flush c))\<lparr>errors := mergeErrors (defaultValues (props c))
                                       (errors (state c)) ''form'' JNull,
                            isSubmitting := False\<rparr>)
   \<and> (submitter (props c) (values_obj (state c)) ''form'' = Threw reason
        \<and> mounted c \<and> canSetStateFromAsync c \<longrightarrow>
        updates (fst (submit c)) =
          updates c @
            [no_field\<lparr>isSubmitting_part := Some True\<rparr>,
             no_field\<lparr>errors_part := Some (mergeErrors (defaultValues (props c))
                                          (errors (state c)) ''form'' reason)\<rparr>,
             no_field\<lparr>isSubmitting_part := Some False\<rparr>]
        \<and> state (flush (fst (submit c))) =
          (state (flush c))\<lparr>errors := mergeErrors (defaultValues (props c))
                                       (errors (state c)) ''form'' reason,
                            isSubmitting := False\<rparr>)
   \<and> (\<not> canSetStateFromAsync c' \<longrightarrow>
        state (completion (submit c) c') = state c'
        \<and> updates (completion (submit c) c') = updates c')"
proof -
  let ?out = "submitter (props c) (values_obj (state c)) ''form''"
  let ?c1 = "setState (no_field\<lparr>isSubmitting_part := Some True\<rparr>) c"
  let ?c3 = "snd (call_handler (submitter (props c)) (values_obj (state c)) ''form''
                 (notify [JStr ''form'', JStr ''start'']
                   (notify [JStr ''form'', JStr ''props.formSubmit''] ?c1)))"
  note shape = submit_shape [of c, unfolded Let_def]
  have c3: "updates ?c3 = updates ?c1" "state (flush ?c3) = state (flush ?c1)"
    "mounted ?c3 = mounted c" "canSetStateFromAsync ?c3 = canSetStateFromAsync c"
    "props ?c3 = props c" "errors (state ?c3) = errors (state c)"
    "invoked ?c3 = invoked c @ [(''form'', values_obj (state c))]"
    by (simp_all add: call_handler_fields notify_fields flush_fields setState_fields
        setState_isSubmitting, simp add: call_handler_def notify_fields setState_fields)
  have keep: "invoked (notify a (endSubmitting (updateErrors k e s))) = invoked s" for a k e s
    by (simp add: notify_fields endSubmitting_def updateErrors_def Let_def setState_fields)
  have inv: "invoked (fst (submit c)) = invoked c @ [(''form'', values_obj (state c))]"
    by (cases ?out) (simp_all add: shape keep c3(7) split: settlement.splits)
  have first: "mounted c \<Longrightarrow> updates ?c1 = updates c @ [no_field\<lparr>isSubmitting_part := Some True\<rparr>]"
    "mounted c \<Longrightarrow> state (flush ?c1) = (state (flush c))\<lparr>isSubmitting := True\<rparr>"
    by (simp_all add: setState_mounted merge_state_def no_field_def)
  have pend: "mounted c \<and> ?out = Pending p \<longrightarrow>
        updates (fst (submit c)) = updates c @ [no_field\<lparr>isSubmitting_part := Some True\<rparr>]
        \<and> state (flush (fst (submit c))) = (state (flush c))\<lparr>isSubmitting := True\<rparr>"
    by (cases p) (simp_all add: shape c3 first)
  have fin: "updates (notify a (endSubmitting (updateErrors ''form'' e s))) =
          updates s @
            [no_field\<lparr>errors_part := Some (mergeErrors (defaultValues (props s))
                                          (errors (state s)) ''form'' e)\<rparr>,
             no_field\<lparr>isSubmitting_part := Some False\<rparr>]
        \<and> state (flush (notify a (endSubmitting (updateErrors ''form'' e s)))) =
          (state (flush s))\<lparr>errors := mergeErrors (defaultValues (props s))
                                       (errors (state s)) ''form'' e,
                            isSubmitting := False\<rparr>"
    if "mounted s" and "canSetStateFromAsync s" for a e s
    using form_done [OF that, of e] by (simp add: notify_fields flush_fields)
  have res: "?out = Pending (Fulfilled v) \<and> mounted c' \<and> canSetStateFromAsync c' \<longrightarrow>
        updates (completion (submit c) c') =
          updates c' @
            [no_field\<lparr>errors_part := Some (mergeErrors (defaultValues (props c'))
                                          (errors (state c')) ''form'' JNull)\<rparr>,
             no_field\<lparr>isSubmitting_part := Some False\<rparr>]
        \<and> state (flush (completion (submit c) c')) =
          (state (flush c'))\<lparr>errors := mergeErrors (defaultValues (props c'))
                                        (errors (state c')) ''form'' JNull,
                             isSubmitting := False\<rparr>"
    by (simp add: shape completion_def fin)
  have rej: "?out = Pending (RejectedWith reason) \<and> mounted c' \<and> canSetStateFromAsync c' \<longrightarrow>
        updates (completion (submit c) c') =
          updates c' @
            [no_field\<lparr>errors_part := Some (mergeErrors (defaultValues (props c'))
                                          (errors (state c')) ''form'' reason)\<rparr>,
             no_field\<lparr>isSubmitting_part := Some False\<rparr>]
        \<and> state (flush (completion (submit c) c')) =
          (state (flush c'))\<lparr>errors := mergeErrors (defaultValues (props c'))
                                        (errors (state c')) ''form'' reason,
                             isSubmitting := False\<rparr>"
    by (simp add: shape completion_def fin)
  have sync: "updates (notify a (endSubmitting (updateErrors ''form'' e ?c3))) =
          updates c @
            [no_field\<lparr>isSubmitting_part := Some True\<rparr>,
             no_field\<lparr>errors_part := Some (mergeErrors (defaultValues (props c))
                                          (errors (state c)) ''form'' e)\<rparr>,
             no_field\<lparr>isSubmitting_part := Some False\<rparr>]
        \<and> state (flush (notify a (endSubmitting (updateErrors ''form'' e ?c3)))) =
          (state (flush c))\<lparr>errors := mergeErrors (defaultValues (props c))
                                       (errors (state c)) ''form'' e,
                            isSubmitting := False\<rparr>"
    if "mounted c" and "canSetStateFromAsync c" for a e
  proof -
    have "mounted ?c3" "canSetStateFromAsync ?c3" using that by (simp_all add: c3)
    from fin [OF this, of a e] show ?thesis
      by (simp add: c3 first that)
  qed
  have ret: "?out = Returned v \<and> mounted c \<and> canSetStateFromAsync c \<longrightarrow>
        updates (fst (submit c)) =
          updates c @
            [no_field\<lparr>isSubmitting_part := Some True\<rparr>,
             no_field\<lparr>errors_part := Some (mergeErrors (defaultValues (props c))
                                          (errors (state c)) ''form'' JNull)\<rparr>,
             no_field\<lparr>isSubmitting_part := Some False\<rparr>]
        \<and> state (flush (fst (submit c))) =
          (state (flush c))\<lparr>errors := mergeErrors (defaultValues (props c))
                                       (errors (state c)) ''form'' JNull,
                            isSubmitting := False\<rparr>"
    using sync [of "[JStr ''form'', JStr ''resolve'']" JNull] by (simp add: shape)
  have thr: "?out = Threw reason \<and> mounted c \<and> canSetStateFromAsync c \<longrightarrow>
        updates (fst (submit c)) =
          updates c @
            [no_field\<lparr>isSubmitting_part := Some True\<rparr>,
             no_field\<lparr>errors_part := Some (mergeErrors (defaultValues (props c))
                                          (errors (state c)) ''form'' reason)\<rparr>,
             no_field\<lparr>isSubmitting_part := Some False\<rparr>]
        \<and> state (flush (fst (submit c))) =
          (state (flush c))\<lparr>errors := mergeErrors (defaultValues (props c))
                                       (errors (state c)) ''form'' reason,
                            isSubmitting := False\<rparr>"
    using sync [of "[JStr ''form'', JStr ''reject'', reason]" reason] by (simp add: shape)
  have gone: "\<not> canSetStateFromAsync c' \<longrightarrow>
        state (completion (submit c) c') = state c'
        \<and> updates (completion (submit c) c') = updates c'"
  proof
    assume u: "\<not> canSetStateFromAsync c'"
    let ?P = "\<lambda>s. state s = state c' \<and> updates s = updates c' \<and> \<not> canSetStateFromAsync s"
    have "?P (completion (submit c) c')"
      by (rule completion_inv(3))
        (simp_all add: notify_fields updateErrors_unmounted endSubmitting_unmounted u)
    then show "state (completion (submit c) c') = state c'
        \<and> updates (completion (submit c) c') = updates c'"
      by simp
  qed
  from inv pend res rej ret thr gone show ?thesis by blast
qed

text \<open>
  Scenario 4 and its variants on the mounted form: a submitter whose promise rejects (the
  state while pending, the two updates of the completion in their order, the state
  after), one whose promise resolves, one that returns and one that throws inside a
  submit event; and the rejection arriving after unmount.
\<close>

theorem submit_flow_witness:
  "state (fst (submit demo_mounted))
     = \<lparr>values_obj = [(''email'', JStr ''''), (''age'', JNum 0)], errors = [],
        isSubmitting = True\<rparr>
   \<and> invoked (fst (submit demo_mounted)) = [(''form'', [(''email'', JStr ''''), (''age'', JNum 0)])]
   \<and> updates (completion (submit demo_mounted) (fst (submit demo_mounted)))
     = [no_field\<lparr>isSubmitting_part := Some True\<rparr>,
        no_field\<lparr>errors_part :=
          Some [(''form'', JObj 1 [(''general'', JStr ''server error'')])]\<rparr>,
        no_field\<lparr>isSubmitting_part := Some False\<rparr>]
   \<and> state (completion (submit demo_mounted) (fst (submit demo_mounted)))
     = \<lparr>values_obj = [(''email'', JStr ''''), (''age'', JNum 0)],
        errors = [(''form'', JObj 1 [(''general'', JStr ''server error'')])],
        isSubmitting = False\<rparr>
   \<and> state (completion (submit (demo_with resolving)) (fst (submit (demo_with resolving))))
     = \<lparr>values_obj = [(''email'', JStr ''''), (''age'', JNum 0)],
        errors = [(''form'', JNull)], isSubmitting = False\<rparr>
   \<and> state (fst (batchedUpdates submit (demo_with returning)))
     = \<lparr>values_obj = [(''email'', JStr ''''), (''age'', JNum 0)],
        errors = [(''form'', JNull)], isSubmitting = False\<rparr>
   \<and> state (fst (batchedUpdates submit (demo_with throwing)))
     = \<lparr>values_obj = [(''email'', JStr ''''), (''age'', JNum 0)],
        errors = [(''form'', JStr ''offline'')], isSubmitting = False\<rparr>
   \<and> state (completion (submit demo_mounted) (unmountComponent (fst (submit demo_mounted))))
     = \<lparr>values_obj = [(''email'', JStr ''''), (''age'', JNum 0)], errors = [],
        isSubmitting = True\<rparr>"
proof -
  let ?st = "\<lparr>values_obj = [(''email'', JStr ''''), (''age'', JNum 0)], errors = [],
        isSubmitting = False\<rparr>"
  let ?err = "JObj 1 [(''general'', JStr ''server error'')]"
  note shape = demo_with_shape
  note merged = demo_merged
  have nb: "flush c = c" if "batch c = None" for c
    using that by (simp add: flush_def)
  let ?pending = "fst (submit (demo_with server_error))"
  have a3: "canSetStateFromAsync ?pending" "mounted ?pending" "batch ?pending = None"
    "defaultValues (props ?pending) = [(''email'', JStr ''''), (''age'', JNum 0)]"
    by (simp_all add: demo_defs)
  note a = submit_flow [of "demo_with server_error" "RejectedWith ?err" JUndefined ?pending ?err]
  have a1: "state ?pending = ?st\<lparr>isSubmitting := True\<rparr>"
    and a0: "updates ?pending = [no_field\<lparr>isSubmitting_part := Some True\<rparr>]"
    and a2: "invoked ?pending = [(''form'', [(''email'', JStr ''''), (''age'', JNum 0)])]"
    using a nb [OF a3(3)] by (simp_all add: shape server_error_def nb)
  have a6: "batch (completion (submit (demo_with server_error)) ?pending) = None"
    by (simp add: demo_defs)
  have a4: "state (completion (submit (demo_with server_error)) ?pending)
     = \<lparr>values_obj = [(''email'', JStr ''''), (''age'', JNum 0)],
        errors = [(''form'', ?err)], isSubmitting = False\<rparr>"
    and a7: "updates (completion (submit (demo_with server_error)) ?pending)
     = [no_field\<lparr>isSubmitting_part := Some True\<rparr>,
        no_field\<lparr>errors_part := Some [(''form'', ?err)]\<rparr>,
        no_field\<lparr>isSubmitting_part := Some False\<rparr>]"
    using a a0 a1 a3 nb [OF a3(3)] nb [OF a6] by (simp_all add: shape server_error_def merged)
  let ?gone = "unmountComponent ?pending"
  have g: "\<not> canSetStateFromAsync ?gone" "state ?gone = state ?pending"
    by (simp_all add: unmountComponent_def componentWillUnmount_def notify_def)
  from submit_flow [of "demo_with server_error" Unsettled JUndefined ?gone JUndefined] g a1
  have a5: "state (completion (submit (demo_with server_error)) ?gone)
      = ?st\<lparr>isSubmitting := True\<rparr>"
    by simp
  let ?p2 = "fst (submit (demo_with resolving))"
  have b3: "canSetStateFromAsync ?p2" "mounted ?p2" "batch ?p2 = None"
    "defaultValues (props ?p2) = [(''email'', JStr ''''), (''age'', JNum 0)]"
    by (simp_all add: demo_defs resolving_def)
  have b6: "batch (completion (submit (demo_with resolving)) ?p2) = None"
    by (simp add: demo_defs resolving_def)
  note b = submit_flow [of "demo_with resolving" "Fulfilled JUndefined" JUndefined ?p2 JUndefined]
  have b1: "state ?p2 = ?st\<lparr>isSubmitting := True\<rparr>"
    using b nb [OF b3(3)] by (simp add: shape resolving_def nb)
  have b4: "state (completion (submit (demo_with resolving)) ?p2)
     = \<lparr>values_obj = [(''email'', JStr ''''), (''age'', JNum 0)],
        errors = [(''form'', JNull)], isSubmitting = False\<rparr>"
    using b b1 b3 nb [OF b3(3)] nb [OF b6] by (simp add: shape resolving_def merged)
  have ev: "fst (batchedUpdates submit (demo_with sub))
      = flush (fst (submit (demo_with sub\<lparr>batch := Some []\<rparr>)))" for sub
    by (simp add: batchedUpdates_def shape split: prod.splits)
  have evs: "state (flush (demo_with sub\<lparr>batch := Some []\<rparr>)) = ?st" for sub
    by (simp add: flush_def shape)
  from submit_flow [of "demo_with returning\<lparr>batch := Some []\<rparr>" Unsettled JUndefined
      "demo_with returning" JUndefined]
  have c1: "state (fst (batchedUpdates submit (demo_with returning)))
     = \<lparr>values_obj = [(''email'', JStr ''''), (''age'', JNum 0)],
        errors = [(''form'', JNull)], isSubmitting = False\<rparr>"
    by (simp add: ev evs shape returning_def merged)
  from submit_flow [of "demo_with throwing\<lparr>batch := Some []\<rparr>" Unsettled JUndefined
      "demo_with throwing" "JStr ''offline''"]
  have d1: "state (fst (batchedUpdates submit (demo_with throwing)))
     = \<lparr>values_obj = [(''email'', JStr ''''), (''age'', JNum 0)],
        errors = [(''form'', JStr ''offline'')], isSubmitting = False\<rparr>"
    by (simp add: ev evs shape throwing_def merged)
  from a1 a2 a4 a7 a5 b4 c1 d1 show ?thesis by (simp add: demo_mounted_def)
qed

text \<open>
  Submit on the mounted form, unmount, then the rejection arrives: \<open>isSubmitting\<close> stays
  set and no entry for \<open>form\<close> is merged into the errors.
\<close>

theorem submit_unmounted_counterexample:
  "isSubmitting (state (completion (submit demo_mounted)
      (unmountComponent (fst (submit demo_mounted)))))
   \<and> map_of (errors (state (completion (submit demo_mounted)
      (unmountComponent (fst (submit demo_mounted)))))) ''form'' = None"
  by (simp add: demo_defs)

section \<open>Change\<close>



text \<open>
  C8 (undeclared names), as the code has it. For a name that is not a declared field,
  \<open>change\<close> and \<open>validate\<close> return the component as it was: values, errors and
  \<open>isSubmitting\<close> are unchanged, no validator is called (\<open>invoked\<close> is unchanged), nothing
  is pending, and the calls have no exceptional exit. The inspector is told nothing
  (\<open>inspected\<close> is unchanged): the calls to \<open>notify\<close> are inside the guard, and the name check
  is given the declared fields, the name and a label, not the inspector.
\<close>

theorem undeclared_name_noop:
  "name \<notin> set (object_keys (defaultValues (props c))) \<Longrightarrow>
     change name v vc c = (c, None) \<and> validate name c = (c, None)"
  by (simp add: change_def validate_def isDefinedName_def)

theorem undeclared_name_noop_witness:
  "''phone'' \<notin> set (object_keys (defaultValues (props demo_mounted)))
   \<and> change ''phone'' (JStr ''555'') None demo_mounted = (demo_mounted, None)
   \<and> validate ''phone'' demo_mounted = (demo_mounted, None)"
proof -
  have h: "''phone'' \<notin> set (object_keys (defaultValues (props demo_mounted)))"
    by (simp add: demo_defs)
  from undeclared_name_noop [OF h] h show ?thesis by simp
qed

text \<open>
  On the mounted form the undeclared name \<open>phone\<close> reaches the inspector neither through
  \<open>change\<close> nor through \<open>validate\<close>, while a validation of the declared \<open>email\<close> does.
\<close>

theorem undeclared_name_unreported_counterexample:
  "''phone'' \<notin> set (object_keys (defaultValues (props demo_mounted)))
   \<and> inspected (fst (change ''phone'' (JStr ''555'') None demo_mounted)) = inspected demo_mounted
   \<and> inspected (fst (validate ''phone'' demo_mounted)) = inspected demo_mounted
   \<and> inspected (fst (validate ''email'' demo_mounted))
       = inspected demo_mounted @ [[JStr ''props.formValidate'', JStr ''email'']]"
  by (simp add: demo_defs)

section \<open>Pristine\<close>

text \<open>
  C9 (pristine round trip), as the code has it. On a mounted component, for a declared
  field whose default value is strictly equal to itself (it is not \<open>NaN\<close>): when every
  other field of the state is strictly equal to its default, changing the field to its
  default makes \<open>isPristine\<close>, and the flag handed to the form, true once the update is
  applied: at the end of the batch, and at once outside a batch.
\<close>

theorem pristine_round_trip:
  assumes "name \<in> set (object_keys (defaultValues (props c)))"
    and "mounted c"
    and "\<forall>k \<in> set (object_keys (values_obj (state c))). k \<noteq> name \<longrightarrow>
           strict_eq (prop_get (values_obj (state c)) k) (prop_get (defaultValues (props c)) k)"
    and "strict_eq (prop_get (defaultValues (props c)) name)
           (prop_get (defaultValues (props c)) name)"
  shows "isPristine (flush (fst (change name (prop_get (defaultValues (props c)) name) vc c)))
       \<and> formIsPristine (render (flush
           (fst (change name (prop_get (defaultValues (props c)) name) vc c))))
       \<and> (batch c = None \<longrightarrow>
           isPristine (fst (change name (prop_get (defaultValues (props c)) name) vc c)))"
proof -
  let ?d = "prop_get (defaultValues (props c)) name"
  let ?r = "fst (change name ?d vc c)"
  from change_keeps [OF assms(1,2), of ?d vc]
  have k: "values_obj (state (flush ?r)) = map_set (values_obj (state c)) name ?d"
    "props (flush ?r) = props c"
    by (simp_all add: keeps_def flush_fields)
  have p: "isPristine (flush ?r)"
    using assms(3,4)
    by (auto simp add: isPristine_def k isPristine_loop_iff object_keys_map_set prop_get_map_set)
  have "batch ?r = None" if "batch c = None"
    by (rule call_inv(1))
      (simp_all add: that notify_fields call_handler_fields setState_def split: option.splits)
  then have "batch c = None \<longrightarrow> flush ?r = ?r"
    by (simp add: flush_def)
  with p show ?thesis by (auto simp add: render_def)
qed

text \<open>
  After \<open>age\<close> was changed to 30 the form is not pristine; changing it back to 0 it is,
  in a change event and outside one.
\<close>

theorem pristine_round_trip_witness:
  "''age'' \<in> set (object_keys (defaultValues (props
        (fst (change ''age'' (JNum 30) (Some False) demo_mounted)))))
   \<and> mounted (fst (change ''age'' (JNum 30) (Some False) demo_mounted))
   \<and> strict_eq (JNum 0) (JNum 0)
   \<and> \<not> isPristine (fst (change ''age'' (JNum 30) (Some False) demo_mounted))
   \<and> isPristine (fst (change ''age'' (JNum 0) None
        (fst (change ''age'' (JNum 30) (Some False) demo_mounted))))
   \<and> isPristine (flush (fst (change ''age'' (JNum 0) None
        (fst (change ''age'' (JNum 30) (Some False) demo_mounted)\<lparr>batch := Some []\<rparr>))))"
proof -
  let ?c = "fst (change ''age'' (JNum 30) (Some False) demo_mounted)"
  let ?e = "?c\<lparr>batch := Some []\<rparr>"
  have c: "values_obj (state ?c) = [(''email'', JStr ''''), (''age'', JNum 30)]"
    "defaultValues (props ?c) = [(''email'', JStr ''''), (''age'', JNum 0)]"
    "mounted ?c" "batch ?c = None"
    by (simp_all add: demo_defs)
  have d: "prop_get (defaultValues (props ?c)) ''age'' = JNum 0"
    "prop_get (defaultValues (props ?e)) ''age'' = JNum 0"
    by (simp_all add: c prop_get_def)
  have n: "\<not> isPristine ?c"
    by (simp add: isPristine_def c object_keys_def prop_get_def)
  have "isPristine (fst (change ''age'' (prop_get (defaultValues (props ?c)) ''age'') None ?c))"
    using pristine_round_trip [of "''age''" ?c None]
    by (simp add: c object_keys_def prop_get_def)
  moreover
  have "isPristine (flush (fst (change ''age'' (prop_get (defaultValues (props ?e)) ''age'')
          None ?e)))"
    using pristine_round_trip [of "''age''" ?e None]
    by (simp add: c object_keys_def prop_get_def)
  ultimately show ?thesis
    using n d c by (simp add: object_keys_def)
qed

text \<open>
  The field \<open>ratio\<close> has the default \<open>NaN\<close>, and the other field is at its default.
  Changing \<open>ratio\<close> to its default leaves the mounted form not pristine.
\<close>

theorem pristine_nan_counterexample:
  "''ratio'' \<in> set (object_keys (defaultValues (props nan_mounted)))
   \<and> mounted nan_mounted
   \<and> strict_eq (prop_get (values_obj (state nan_mounted)) ''name'')
        (prop_get (defaultValues (props nan_mounted)) ''name'')
   \<and> \<not> isPristine (fst (change ''ratio'' (prop_get (defaultValues (props nan_mounted)) ''ratio'')
          None nan_mounted))"
  by (simp add: nan_props_def nan_mounted_def demo_defs isPristine_def)

end
